theory Spec2Isabelle
  imports Main "HOL-Library.Monad_Syntax" "HOL-Library.Sublist"
begin

text \<open>
  The navigation container \<open>Nav\<close> of \<open>src/Nav.tsx\<close>: how it resolves the active key,
  the navbar and card-header contexts and its props into the attributes of the
  \<open>AbstractNav\<close> element it renders, and what its validator of \<open>justify\<close> reports.
\<close>

section \<open>JavaScript values and objects\<close>

text \<open>
  The values a React prop can carry, as far as \<open>Nav.tsx\<close> looks at them: the
  primitives, caller-supplied functions (\<open>JFun\<close>, by identity), element types, nodes and
  refs (\<open>JNode\<close>, by identity), and the change handler the \<open>useUncontrolled\<close> hook
  wraps around the caller's notifier (\<open>JHandler\<close>, carrying the wrapped value).
\<close>

datatype jsval =
    JUndefined
  | JNull
  | JBool bool
  | JNum int
  | JStr string
  | JFun nat
  | JNode nat
  | JHandler jsval

text \<open>A props object: own properties by name. Reading a missing property gives \<open>undefined\<close>.\<close>

type_synonym jsobject = "string \<rightharpoonup> jsval"

definition get :: "jsobject \<Rightarrow> string \<Rightarrow> jsval" where
  "get obj k = (case obj k of None \<Rightarrow> JUndefined | Some v \<Rightarrow> v)"

text \<open>Object rest in a destructuring pattern: every own property but the named ones.\<close>

definition omit :: "jsobject \<Rightarrow> string list \<Rightarrow> jsobject" where
  "omit obj ks = obj |` (- set ks)"

fun truthy :: "jsval \<Rightarrow> bool" where
  "truthy JUndefined = False"
| "truthy JNull = False"
| "truthy (JBool b) = b"
| "truthy (JNum n) = (n \<noteq> 0)"
| "truthy (JStr s) = (s \<noteq> [])"
| "truthy (JFun f) = True"
| "truthy (JNode n) = True"
| "truthy (JHandler h) = True"

section \<open>The declared prop types (interface \<open>NavProps\<close>, lines 21-34)\<close>

datatype variant = tabs | pills

fun variantText :: "variant \<Rightarrow> string" where
  "variantText tabs = ''tabs''"
| "variantText pills = ''pills''"

text \<open>
  Reading a prop at its declared type. The outer \<open>None\<close> is a value outside the declared
  type (which the type checker excludes); \<open>Some None\<close> is an absent optional prop.
\<close>

fun asOptBool :: "jsval \<Rightarrow> bool option option" where
  "asOptBool JUndefined = Some None"
| "asOptBool JNull = Some None"
| "asOptBool (JBool b) = Some (Some b)"
| "asOptBool _ = None"

fun asOptString :: "jsval \<Rightarrow> string option option" where
  "asOptString JUndefined = Some None"
| "asOptString (JStr s) = Some (Some s)"
| "asOptString _ = None"

fun asOptVariant :: "jsval \<Rightarrow> variant option option" where
  "asOptVariant JUndefined = Some None"
| "asOptVariant (JStr s) =
     (if s = ''tabs'' then Some (Some tabs)
      else if s = ''pills'' then Some (Some pills)
      else None)"
| "asOptVariant _ = None"

text \<open>Truthiness of an optional boolean: \<open>undefined\<close> and \<open>false\<close> are falsy.\<close>

fun isTrue :: "bool option \<Rightarrow> bool" where
  "isTrue None = False"
| "isTrue (Some b) = b"

text \<open>Truthiness of an optional string: \<open>undefined\<close> and the empty string are falsy.\<close>

fun nonEmpty :: "string option \<Rightarrow> bool" where
  "nonEmpty None = False"
| "nonEmpty (Some s) = (s \<noteq> [])"

text \<open>A template-literal hole \<open>${x}\<close>: an unset variable prints as the text \<open>undefined\<close>.\<close>

fun templ :: "string option \<Rightarrow> string" where
  "templ None = ''undefined''"
| "templ (Some s) = s"

fun templVariant :: "variant option \<Rightarrow> string" where
  "templVariant None = ''undefined''"
| "templVariant (Some v) = variantText v"

section \<open>\<open>classNames\<close> on a string and an object literal\<close>

text \<open>
  An object literal with computed keys is built one property at a time, in source order:
  a key that is already there keeps its position and takes the later value, a new key goes
  to the end. (Of the seven keys of the literal below only the first can be an integer
  index, which JavaScript would enumerate first, where it already is.)
\<close>

fun assign :: "string \<Rightarrow> bool \<Rightarrow> (string \<times> bool) list \<Rightarrow> (string \<times> bool) list" where
  "assign k v [] = [(k, v)]"
| "assign k v (p # ps) = (if fst p = k then (k, v) # ps else p # assign k v ps)"

definition objectLiteral :: "(string \<times> bool) list \<Rightarrow> (string \<times> bool) list" where
  "objectLiteral entries = foldl (\<lambda>obj (k, v). assign k v obj) [] entries"

text \<open>The keys whose value is truthy, in enumeration order.\<close>

definition enabledKeys :: "(string \<times> bool) list \<Rightarrow> string list" where
  "enabledKeys obj = map fst (filter snd obj)"

fun joinSpace :: "string list \<Rightarrow> string" where
  "joinSpace [] = []"
| "joinSpace [c] = c"
| "joinSpace (c # cs) = c @ '' '' @ joinSpace cs"

text \<open>
  \<open>classNames(className, {...})\<close> of the package \<open>classnames\<close>: a truthy string argument is
  taken as it is, an object argument gives its keys with truthy values, and the pieces are
  joined with single spaces.
\<close>

definition classNames :: "string option \<Rightarrow> (string \<times> bool) list \<Rightarrow> string" where
  "classNames className obj =
     joinSpace ((if nonEmpty className then [templ className] else []) @ enabledKeys obj)"

section \<open>Ambient contexts (lines 139-153)\<close>

text \<open>
  Modelled from the spec: the context types of \<open>./NavbarContext\<close> and \<open>./CardContext\<close>
  are not under src/; the spec has the navbar context supply a prefix string and the
  card context a header prefix string, read by \<open>Nav\<close> as \<open>bsPrefix\<close> and
  \<open>cardHeaderBsPrefix\<close>.
\<close>

record NavbarContext =
  bsPrefix :: string

record CardContext =
  cardHeaderBsPrefix :: string

text \<open>
  What a render reads from its surroundings: the theme's prefix resolver behind
  \<open>useBootstrapPrefix\<close> (of \<open>./ThemeProvider\<close>, not under src/: taken as a parameter) and
  the two optional contexts (\<open>None\<close> is the \<open>null\<close> default of \<open>useContext\<close>).
\<close>

record Ambient =
  useBootstrapPrefix :: "string option \<Rightarrow> string \<Rightarrow> string"
  navbarContext :: "NavbarContext option"
  cardContext :: "CardContext option"

text \<open>
  Lines 141-153: \<open>navbarBsPrefix\<close> and \<open>cardHeaderBsPrefix\<close> start unset, \<open>isNavbar\<close>
  starts \<open>false\<close>; the navbar context is tested first, the card context only in the
  \<open>else\<close> branch. The result is \<open>(navbarBsPrefix, cardHeaderBsPrefix, isNavbar)\<close>.
\<close>

definition resolveContext ::
  "NavbarContext option \<Rightarrow> CardContext option \<Rightarrow> bool option \<Rightarrow>
   string option \<times> string option \<times> bool" where
  "resolveContext nctx cctx navbar =
     (case nctx of
        Some n \<Rightarrow> (Some (bsPrefix n), None, (case navbar of None \<Rightarrow> True | Some b \<Rightarrow> b))
      | None \<Rightarrow>
          (case cctx of
             Some c \<Rightarrow> (None, Some (cardHeaderBsPrefix c), False)
           | None \<Rightarrow> (None, None, False)))"

section \<open>Class composition (lines 160-168)\<close>

text \<open>The object literal handed to \<open>classNames\<close>, key by key in source order.\<close>

definition classObject ::
  "string \<Rightarrow> string option \<Rightarrow> string option \<Rightarrow> bool \<Rightarrow>
   bool option \<Rightarrow> variant option \<Rightarrow> bool option \<Rightarrow> bool option \<Rightarrow> (string \<times> bool) list" where
  "classObject ownPrefix navbarBsPrefix cardHeaderPrefix isNavbar navbarScroll vnt fll jst =
     objectLiteral
       [(ownPrefix, \<not> isNavbar),
        (templ navbarBsPrefix @ ''-nav'', isNavbar),
        (templ navbarBsPrefix @ ''-nav-scroll'', isNavbar \<and> isTrue navbarScroll),
        (templ cardHeaderPrefix @ ''-'' @ templVariant vnt, nonEmpty cardHeaderPrefix),
        (ownPrefix @ ''-'' @ templVariant vnt, vnt \<noteq> None),
        (ownPrefix @ ''-fill'', isTrue fll),
        (ownPrefix @ ''-justified'', isTrue jst)]"

section \<open>The destructured props (lines 125-137)\<close>

text \<open>
  The local variables the destructuring pattern binds, at their declared types, and the
  rest object \<open>props\<close>.
\<close>

record NavLocals =
  as :: jsval
  initialBsPrefix :: "string option"
  variant :: "variant option"
  fill :: "bool option"
  justify :: "bool option"
  navbar :: "bool option"
  navbarScroll :: "bool option"
  className :: "string option"
  children :: jsval
  activeKey :: jsval
  props :: jsobject

text \<open>The property names the pattern takes out of the rest object.\<close>

definition destructured :: "string list" where
  "destructured = [''as'', ''bsPrefix'', ''variant'', ''fill'', ''justify'', ''navbar'',
                   ''navbarScroll'', ''className'', ''children'', ''activeKey'']"

text \<open>
  \<open>as\<close> defaults to \<open>'div'\<close> when it is \<open>undefined\<close>. \<open>None\<close> stands for a prop
  outside its declared type, which is not modelled.
\<close>

definition destructure :: "jsobject \<Rightarrow> NavLocals option" where
  "destructure obj =
     do {
       b \<leftarrow> asOptString (get obj ''bsPrefix'');
       v \<leftarrow> asOptVariant (get obj ''variant'');
       f \<leftarrow> asOptBool (get obj ''fill'');
       j \<leftarrow> asOptBool (get obj ''justify'');
       n \<leftarrow> asOptBool (get obj ''navbar'');
       s \<leftarrow> asOptBool (get obj ''navbarScroll'');
       c \<leftarrow> asOptString (get obj ''className'');
       Some \<lparr>as = (if get obj ''as'' = JUndefined then JStr ''div'' else get obj ''as''),
             initialBsPrefix = b, variant = v, fill = f, justify = j, navbar = n,
             navbarScroll = s, className = c,
             children = get obj ''children'', activeKey = get obj ''activeKey'',
             props = omit obj destructured\<rparr>
     }"

section \<open>The render (lines 139-173)\<close>

definition isHostedInNavbar :: "Ambient \<Rightarrow> NavLocals \<Rightarrow> bool" where
  "isHostedInNavbar amb L =
     snd (snd (resolveContext (navbarContext amb) (cardContext amb) (navbar L)))"

text \<open>
  The object literal of a render: the resolved own prefix, the resolved contexts and the
  props \<open>variant\<close>, \<open>fill\<close>, \<open>justify\<close>, \<open>navbarScroll\<close>.
\<close>

definition navClassObject :: "Ambient \<Rightarrow> NavLocals \<Rightarrow> (string \<times> bool) list" where
  "navClassObject amb L =
     (case resolveContext (navbarContext amb) (cardContext amb) (navbar L) of
        (navbarBsPrefix, cardHeaderPrefix, isNavbar) \<Rightarrow>
          classObject (useBootstrapPrefix amb (initialBsPrefix L) ''nav'')
            navbarBsPrefix cardHeaderPrefix isNavbar
            (navbarScroll L) (variant L) (fill L) (justify L))"

text \<open>The structurally derived classes: the keys \<open>classNames\<close> keeps.\<close>

definition derivedClasses :: "Ambient \<Rightarrow> NavLocals \<Rightarrow> string list" where
  "derivedClasses amb L = enabledKeys (navClassObject amb L)"

text \<open>
  The attribute bag of the \<open>AbstractNav\<close> element: \<open>as\<close>, \<open>ref\<close>, \<open>activeKey\<close>,
  \<open>className\<close>, then the spread rest object, then the children.
\<close>

definition render :: "Ambient \<Rightarrow> jsval \<Rightarrow> NavLocals \<Rightarrow> jsobject" where
  "render amb ref L =
     ([''as'' \<mapsto> as L,
       ''ref'' \<mapsto> ref,
       ''activeKey'' \<mapsto> activeKey L,
       ''className'' \<mapsto> JStr (classNames (className L) (navClassObject amb L))]
      ++ props L)
     (''children'' \<mapsto> children L)"

text \<open>
  The classes the properties below single out, as the literal computes them: the own prefix, and the
  keys built from the navbar prefix and the card-header prefix the render ends up with
  (the card-header prefix is set only in the \<open>else\<close> branch of the navbar test).
\<close>

definition ownClass :: "Ambient \<Rightarrow> NavLocals \<Rightarrow> string" where
  "ownClass amb L = useBootstrapPrefix amb (initialBsPrefix L) ''nav''"

definition navbarPrefix :: "Ambient \<Rightarrow> string option" where
  "navbarPrefix amb = map_option bsPrefix (navbarContext amb)"

definition navbarNavClass :: "Ambient \<Rightarrow> string" where
  "navbarNavClass amb = templ (navbarPrefix amb) @ ''-nav''"

definition navbarScrollClass :: "Ambient \<Rightarrow> string" where
  "navbarScrollClass amb = templ (navbarPrefix amb) @ ''-nav-scroll''"

definition cardPrefix :: "Ambient \<Rightarrow> string option" where
  "cardPrefix amb =
     (case navbarContext amb of
        Some n \<Rightarrow> None
      | None \<Rightarrow> map_option cardHeaderBsPrefix (cardContext amb))"

definition cardHeaderClass :: "Ambient \<Rightarrow> NavLocals \<Rightarrow> string" where
  "cardHeaderClass amb L = templ (cardPrefix amb) @ ''-'' @ templVariant (variant L)"

section \<open>Selection state (line 137)\<close>

text \<open>
  The hook \<open>useUncontrolled\<close> comes from the package \<open>uncontrollable\<close> and is not
  under src/; this section follows the spec's selection state resolver. The state a
  component instance keeps between renders is the held active key, \<open>None\<close> before the
  first uncontrolled render.
\<close>

type_synonym hookState = "jsval option"

text \<open>
  Modelled from the spec: the mode test of \<open>useUncontrolled\<close> (missing from src/).
  Controlled mode is the caller supplying \<open>activeKey\<close>.
\<close>

definition isControlled :: "jsobject \<Rightarrow> bool" where
  "isControlled p = (get p ''activeKey'' \<noteq> JUndefined)"

text \<open>
  Modelled from the spec: the held value of \<open>useUncontrolled\<close> (missing from src/). It is
  created from \<open>defaultActiveKey\<close> at the first render (\<open>undefined\<close> when that is not
  supplied) and afterwards is whatever the last selection stored.
\<close>

definition heldValue :: "hookState \<Rightarrow> jsobject \<Rightarrow> jsval" where
  "heldValue st p = (case st of None \<Rightarrow> get p ''defaultActiveKey'' | Some v \<Rightarrow> v)"

text \<open>
  Modelled from the spec: the hook \<open>useUncontrolled(props, {activeKey: 'onSelect'})\<close>
  (missing from src/). A supplied \<open>activeKey\<close> is used verbatim and nothing is stored;
  otherwise the held value is used. The hook consumes \<open>activeKey\<close> and
  \<open>defaultActiveKey\<close>, hands every other prop on, and puts the resolved value under
  \<open>activeKey\<close> and its change handler under \<open>onSelect\<close>.
\<close>

definition useUncontrolled :: "hookState \<Rightarrow> jsobject \<Rightarrow> hookState \<times> jsobject" where
  "useUncontrolled st p =
     (if isControlled p
      then (st, (omit p [''defaultActiveKey'', ''activeKey''])
                  (''activeKey'' \<mapsto> get p ''activeKey'',
                   ''onSelect'' \<mapsto> JHandler (get p ''onSelect'')))
      else (Some (heldValue st p),
            (omit p [''defaultActiveKey'', ''activeKey''])
                  (''activeKey'' \<mapsto> heldValue st p,
                   ''onSelect'' \<mapsto> JHandler (get p ''onSelect''))))"

text \<open>
  Modelled from the spec: the change handler of \<open>useUncontrolled\<close> (missing from
  src/), run on a selection event with a key. In uncontrolled mode the key becomes the held
  value; the caller's notifier, if one was supplied, is invoked with the same key. The
  second component is the list of notifier calls made, as (notifier, key).
\<close>

definition selectEvent :: "hookState \<Rightarrow> jsobject \<Rightarrow> jsval \<Rightarrow> hookState \<times> (jsval \<times> jsval) list" where
  "selectEvent st p key =
     ((if isControlled p then st else Some key),
      (if truthy (get p ''onSelect'') then [(get p ''onSelect'', key)] else []))"

text \<open>A run of selection events, in order, with the notifier calls they make.\<close>

fun selectEvents :: "hookState \<Rightarrow> jsobject \<Rightarrow> jsval list \<Rightarrow> hookState \<times> (jsval \<times> jsval) list" where
  "selectEvents st p [] = (st, [])"
| "selectEvents st p (key # keys) =
     (case selectEvent st p key of
        (st1, calls1) \<Rightarrow>
          (case selectEvents st1 p keys of (st2, calls2) \<Rightarrow> (st2, calls1 @ calls2)))"

section \<open>The prop validator of \<open>justify\<close> (lines 76-78)\<close>

datatype error = PropTypeError string | Error string

text \<open>
  \<open>PropTypes.bool\<close> of the package \<open>prop-types\<close>: an absent prop passes, a value that is
  not a boolean is reported.
\<close>

definition PropTypes_bool :: "jsobject \<Rightarrow> string \<Rightarrow> error option" where
  "PropTypes_bool p propName =
     (case get p propName of
        JUndefined \<Rightarrow> None
      | JNull \<Rightarrow> None
      | JBool b \<Rightarrow> None
      | _ \<Rightarrow> Some (PropTypeError propName))"

text \<open>The arrow function of line 76-77: it destructures \<open>justify\<close> and \<open>navbar\<close> from the props.\<close>

definition justifyNavbar :: "jsobject \<Rightarrow> string \<Rightarrow> error option" where
  "justifyNavbar p propName =
     (if truthy (get p ''justify'') \<and> truthy (get p ''navbar'')
      then Some (Error ''justify navbar `Nav`s are not supported'')
      else None)"

text \<open>
  \<open>all(...)\<close> of the package \<open>prop-types-extra\<close>: an absent prop passes; otherwise the
  validators run in order and the first error is the result.
\<close>

fun firstError :: "(jsobject \<Rightarrow> string \<Rightarrow> error option) list \<Rightarrow> jsobject \<Rightarrow> string \<Rightarrow> error option" where
  "firstError [] p propName = None"
| "firstError (v # vs) p propName =
     (case v p propName of Some e \<Rightarrow> Some e | None \<Rightarrow> firstError vs p propName)"

definition all_of :: "(jsobject \<Rightarrow> string \<Rightarrow> error option) list \<Rightarrow> jsobject \<Rightarrow> string \<Rightarrow> error option" where
  "all_of validators p propName =
     (if get p propName = JUndefined \<or> get p propName = JNull then None
      else firstError validators p propName)"

definition propTypes_justify :: "jsobject \<Rightarrow> error option" where
  "propTypes_justify p = all_of [PropTypes_bool, justifyNavbar] p ''justify''"

section \<open>The component (lines 124-174)\<close>

text \<open>
  One render of the component: the incoming props go through \<open>useUncontrolled\<close>, the
  result is destructured and rendered. The hook's state is passed on to the next render.
\<close>

definition Nav :: "Ambient \<Rightarrow> jsval \<Rightarrow> hookState \<Rightarrow> jsobject \<Rightarrow> (hookState \<times> jsobject) option" where
  "Nav amb ref st uncontrolledProps =
     (case useUncontrolled st uncontrolledProps of
        (st', controlled) \<Rightarrow>
          map_option (\<lambda>L. (st', render amb ref L)) (destructure controlled))"

text \<open>
  Lines 119-122 and 178: \<open>defaultProps\<close>. React fills a default in where the incoming
  prop is \<open>undefined\<close>, before the component function runs.
\<close>

definition defaultProps :: jsobject where
  "defaultProps = [''justify'' \<mapsto> JBool False, ''fill'' \<mapsto> JBool False]"

definition resolveDefaultProps :: "jsobject \<Rightarrow> jsobject" where
  "resolveDefaultProps p =
     (\<lambda>k. if get p k = JUndefined \<and> defaultProps k \<noteq> None then defaultProps k else p k)"

text \<open>
  Modelled from the spec: \<open>useBootstrapPrefix\<close> of \<open>./ThemeProvider\<close> is not under src/;
  the spec has it resolve a theme prefix from an optional explicit prefix and the component
  kind. This resolver, used for concrete renders, gives the explicit prefix when there is
  one and the component kind otherwise.
\<close>

definition explicitOrKind :: "string option \<Rightarrow> string \<Rightarrow> string" where
  "explicitOrKind explicitPrefix componentKind =
     (if nonEmpty explicitPrefix then templ explicitPrefix else componentKind)"

section \<open>Concrete renders\<close>

text \<open>
  The surroundings of the spec's example scenarios: a freestanding list, a list inside a
  navbar with prefix \<open>navbar\<close>, inside a card header with prefix \<open>card-header\<close>, and
  inside both.
\<close>

definition freestanding :: Ambient where
  "freestanding =
     \<lparr>useBootstrapPrefix = explicitOrKind, navbarContext = None, cardContext = None\<rparr>"

definition insideNavbar :: Ambient where
  "insideNavbar =
     \<lparr>useBootstrapPrefix = explicitOrKind,
      navbarContext = Some \<lparr>bsPrefix = ''navbar''\<rparr>, cardContext = None\<rparr>"

definition insideCardHeader :: Ambient where
  "insideCardHeader =
     \<lparr>useBootstrapPrefix = explicitOrKind, navbarContext = None,
      cardContext = Some \<lparr>cardHeaderBsPrefix = ''card-header''\<rparr>\<rparr>"

definition insideBoth :: Ambient where
  "insideBoth =
     \<lparr>useBootstrapPrefix = explicitOrKind,
      navbarContext = Some \<lparr>bsPrefix = ''navbar''\<rparr>,
      cardContext = Some \<lparr>cardHeaderBsPrefix = ''card-header''\<rparr>\<rparr>"

text \<open>
  The locals of a first render with no props but the defaults: \<open>fill\<close> and \<open>justify\<close>
  are \<open>false\<close>, and the rest object holds the hook's change handler.
\<close>

definition plainLocals :: NavLocals where
  "plainLocals =
     \<lparr>as = JStr ''div'', initialBsPrefix = None, variant = None, fill = Some False,
      justify = Some False, navbar = None, navbarScroll = None, className = None,
      children = JUndefined, activeKey = JUndefined,
      props = [''onSelect'' \<mapsto> JHandler JUndefined]\<rparr>"

section \<open>Object literals and class keys\<close>

lemmas class_defs = derivedClasses_def navClassObject_def classObject_def objectLiteral_def
  enabledKeys_def resolveContext_def explicitOrKind_def Let_def

lemma plainLocals_render:
  "destructure (snd (useUncontrolled None (resolveDefaultProps Map.empty))) = Some plainLocals"
proof -
  have "omit (snd (useUncontrolled None (resolveDefaultProps Map.empty))) destructured
      = [''onSelect'' \<mapsto> JHandler JUndefined]"
    by (rule ext)
       (auto simp add: omit_def destructured_def useUncontrolled_def isControlled_def get_def
          resolveDefaultProps_def defaultProps_def heldValue_def restrict_map_def)
  then show ?thesis
    by (simp add: destructure_def plainLocals_def useUncontrolled_def isControlled_def get_def
        resolveDefaultProps_def defaultProps_def heldValue_def omit_def)
qed

lemma map_of_assign: "map_of (assign k v obj) = (map_of obj)(k \<mapsto> v)"
  by (induction obj) (auto simp: fun_eq_iff)

lemma keys_assign: "set (map fst (assign k v obj)) = insert k (set (map fst obj))"
  by (induction obj) auto

lemma distinct_assign: "distinct (map fst obj) \<Longrightarrow> distinct (map fst (assign k v obj))"
proof (induction obj)
  case Nil
  then show ?case by simp
next
  case (Cons p ps)
  have "fst p \<noteq> k \<Longrightarrow> fst p \<notin> set (map fst (assign k v ps))"
    using Cons.prems by (simp only: keys_assign) auto
  with Cons show ?case by auto
qed

text \<open>Building the literal keeps the keys distinct, and the last value written to a key wins.\<close>

lemma foldl_assign:
  "distinct (map fst acc) \<Longrightarrow>
   distinct (map fst (foldl (\<lambda>obj (k, v). assign k v obj) acc entries)) \<and>
   map_of (foldl (\<lambda>obj (k, v). assign k v obj) acc entries) = map_of acc ++ map_of (rev entries)"
proof (induction entries arbitrary: acc)
  case Nil
  then show ?case by simp
next
  case (Cons e es)
  obtain k v where e: "e = (k, v)" by (cases e)
  have d: "distinct (map fst (assign k v acc))"
    using Cons.prems by (rule distinct_assign)
  show ?case
    using Cons.IH [OF d]
    by (simp add: e map_of_assign fun_eq_iff map_add_def split: option.splits)
qed

lemma distinct_objectLiteral: "distinct (map fst (objectLiteral entries))"
  using foldl_assign [of "[]" entries] by (simp add: objectLiteral_def)

lemma map_of_objectLiteral: "map_of (objectLiteral entries) = map_of (rev entries)"
  using foldl_assign [of "[]" entries] by (simp add: objectLiteral_def)

lemma enabledKeys_iff:
  "distinct (map fst obj) \<Longrightarrow> k \<in> set (enabledKeys obj) \<longleftrightarrow> map_of obj k = Some True"
  by (force simp: enabledKeys_def)

lemma enabled_objectLiteral:
  "k \<in> set (enabledKeys (objectLiteral entries)) \<longleftrightarrow> map_of (rev entries) k = Some True"
  by (simp add: enabledKeys_iff distinct_objectLiteral map_of_objectLiteral)

text \<open>
  When a class is among the derived classes: the last of the seven properties with that
  key decides.
\<close>

lemma derived_iff:
  "k \<in> set (derivedClasses amb L) \<longleftrightarrow>
     (if k = ownClass amb L @ ''-justified'' then isTrue (justify L)
      else if k = ownClass amb L @ ''-fill'' then isTrue (fill L)
      else if k = ownClass amb L @ ''-'' @ templVariant (variant L) then variant L \<noteq> None
      else if k = cardHeaderClass amb L then nonEmpty (cardPrefix amb)
      else if k = navbarScrollClass amb then isHostedInNavbar amb L \<and> isTrue (navbarScroll L)
      else if k = navbarNavClass amb then isHostedInNavbar amb L
      else if k = ownClass amb L then \<not> isHostedInNavbar amb L
      else False)"
  by (cases "navbarContext amb"; cases "cardContext amb")
     (simp_all add: derivedClasses_def navClassObject_def classObject_def enabled_objectLiteral
        resolveContext_def ownClass_def cardHeaderClass_def cardPrefix_def navbarScrollClass_def
        navbarNavClass_def navbarPrefix_def isHostedInNavbar_def)

text \<open>Two strings whose last \<open>n\<close> characters differ are different.\<close>

lemma suffix_differs:
  assumes "take n (rev s) \<noteq> take n (rev t)" "n \<le> length s" "n \<le> length t"
  shows "a @ s \<noteq> b @ t"
proof
  assume "a @ s = b @ t"
  then have "rev (a @ s) = rev (b @ t)" by simp
  then have "take n (rev s @ rev a) = take n (rev t @ rev b)" by simp
  with assms show False by simp
qed

lemma variant_suffix:
  "templVariant v = ''tabs'' \<or> templVariant v = ''pills'' \<or> templVariant v = ''undefined''"
proof (cases v)
  case None
  then show ?thesis by simp
next
  case (Some w)
  then show ?thesis by (cases w) simp_all
qed



lemma scroll_ne_variant: "a @ ''-nav-scroll'' \<noteq> b @ CHR ''-'' # templVariant v"
  using variant_suffix [of v]
    suffix_differs [where n = 1 and s = "''-nav-scroll''" and t = "''-tabs''" and a = a and b = b]
    suffix_differs [where n = 1 and s = "''-nav-scroll''" and t = "''-pills''" and a = a and b = b]
    suffix_differs [where n = 1 and s = "''-nav-scroll''" and t = "''-undefined''" and a = a and b = b]
  by auto

lemma nav_ne_scroll: "a @ ''-nav'' \<noteq> b @ ''-nav-scroll''"
  by (rule suffix_differs [where n = 1]) simp_all

lemma nav_ne_justified: "a @ ''-nav'' \<noteq> b @ ''-justified''"
  by (rule suffix_differs [where n = 1]) simp_all

lemma nav_ne_fill: "a @ ''-nav'' \<noteq> b @ ''-fill''"
  by (rule suffix_differs [where n = 1]) simp_all

lemma nav_ne_variant: "a @ ''-nav'' \<noteq> b @ CHR ''-'' # templVariant v"
  using variant_suffix [of v]
    suffix_differs [where n = 1 and s = "''-nav''" and t = "''-tabs''" and a = a and b = b]
    suffix_differs [where n = 1 and s = "''-nav''" and t = "''-pills''" and a = a and b = b]
    suffix_differs [where n = 1 and s = "''-nav''" and t = "''-undefined''" and a = a and b = b]
  by auto

lemma isTrue_iff: "isTrue b \<longleftrightarrow> b = Some True"
  by (cases b) simp_all

lemma hosted_needs_context: "navbarContext amb = None \<Longrightarrow> \<not> isHostedInNavbar amb L"
  by (simp add: isHostedInNavbar_def resolveContext_def split: option.splits)

section \<open>The scroll class\<close>



section \<open>Navbar hosting\<close>

text \<open>
  C6. \<open>isHostedInNavbar\<close> is false when the navbar context is absent, whatever the
  \<open>navbar\<close> prop; when the context is present it is the \<open>navbar\<close> prop if that is
  supplied and true otherwise.
\<close>

theorem hosted_iff:
  "isHostedInNavbar amb L =
     (case navbarContext amb of
        None \<Rightarrow> False
      | Some n \<Rightarrow> (case navbar L of None \<Rightarrow> True | Some b \<Rightarrow> b))"
  by (simp add: isHostedInNavbar_def resolveContext_def split: option.splits)

theorem hosted_iff_witness:
  "isHostedInNavbar insideNavbar plainLocals \<and>
   \<not> isHostedInNavbar insideNavbar (plainLocals\<lparr>navbar := Some False\<rparr>) \<and>
   \<not> isHostedInNavbar freestanding (plainLocals\<lparr>navbar := Some True\<rparr>)"
  using hosted_iff [of insideNavbar plainLocals]
    hosted_iff [of insideNavbar "plainLocals\<lparr>navbar := Some False\<rparr>"]
    hosted_iff [of freestanding "plainLocals\<lparr>navbar := Some True\<rparr>"]
  by (simp add: insideNavbar_def freestanding_def plainLocals_def)

section \<open>The base class\<close>

text \<open>
  C4, as stated, fails where the own prefix is itself the key \<open>{navbarPrefix}-nav\<close>: the
  later property with the same key overwrites the earlier one. A freestanding list with
  \<open>bsPrefix = 'undefined-nav'\<close> is not navbar-hosted and has no derived class at all, so
  neither base class appears.
\<close>

theorem base_class_counterexample:
  "map_option
     (\<lambda>L. (isHostedInNavbar freestanding L, ownClass freestanding L,
           navbarNavClass freestanding, derivedClasses freestanding L))
     (destructure [''bsPrefix'' \<mapsto> JStr ''undefined-nav''])
   = Some (False, ''undefined-nav'', ''undefined-nav'', [])"
  by code_simp

text \<open>
  C4, amended. Exactly one base class is among the derived classes (the own prefix if and
  only if the render is not navbar-hosted, \<open>{navbarPrefix}-nav\<close> if and only if it is)
  exactly when the own prefix is not the key \<open>{navbarPrefix}-nav\<close>, is the key
  \<open>{navbarPrefix}-nav-scroll\<close> only in a navbar-hosted render with \<open>navbarScroll\<close> not
  true, and is the key \<open>{cardHeaderPrefix}-{variant}\<close> only in a navbar-hosted render or
  with a non-empty card-header prefix. In every other render the stated base class is
  missing or the other one is there.
\<close>

theorem base_class:
  "((ownClass amb L \<in> set (derivedClasses amb L) \<longleftrightarrow> \<not> isHostedInNavbar amb L) \<and>
    (navbarNavClass amb \<in> set (derivedClasses amb L) \<longleftrightarrow> isHostedInNavbar amb L))
   \<longleftrightarrow>
   (ownClass amb L \<noteq> navbarNavClass amb \<and>
    (ownClass amb L = navbarScrollClass amb \<longrightarrow>
       isHostedInNavbar amb L \<and> navbarScroll L \<noteq> Some True) \<and>
    (ownClass amb L = cardHeaderClass amb L \<longrightarrow>
       isHostedInNavbar amb L \<or> nonEmpty (cardPrefix amb)))"
proof -
  have nav: "navbarNavClass amb \<in> set (derivedClasses amb L) \<longleftrightarrow> isHostedInNavbar amb L"
    by (simp add: derived_iff navbarNavClass_def navbarScrollClass_def cardHeaderClass_def
        nav_ne_justified nav_ne_fill nav_ne_variant nav_ne_scroll)
  have own: "ownClass amb L \<in> set (derivedClasses amb L) \<longleftrightarrow>
      (if ownClass amb L = cardHeaderClass amb L then nonEmpty (cardPrefix amb)
       else if ownClass amb L = navbarScrollClass amb
         then isHostedInNavbar amb L \<and> navbarScroll L = Some True
       else if ownClass amb L = navbarNavClass amb then isHostedInNavbar amb L
       else \<not> isHostedInNavbar amb L)"
    by (simp add: derived_iff isTrue_iff)
  have keys: "navbarScrollClass amb \<noteq> cardHeaderClass amb L"
      "navbarNavClass amb \<noteq> cardHeaderClass amb L"
      "navbarNavClass amb \<noteq> navbarScrollClass amb"
    by (simp_all add: navbarNavClass_def navbarScrollClass_def cardHeaderClass_def
        scroll_ne_variant nav_ne_variant nav_ne_scroll)
  have card: "nonEmpty (cardPrefix amb) \<Longrightarrow> \<not> isHostedInNavbar amb L"
    by (cases "navbarContext amb") (simp_all add: cardPrefix_def hosted_needs_context)
  show ?thesis
    unfolding nav own using keys card by (auto split: if_splits)
qed

theorem base_class_witness:
  "ownClass insideNavbar (plainLocals\<lparr>initialBsPrefix := Some ''navbar-nav-scroll''\<rparr>)
     = navbarScrollClass insideNavbar \<and>
   isHostedInNavbar insideNavbar (plainLocals\<lparr>initialBsPrefix := Some ''navbar-nav-scroll''\<rparr>) \<and>
   navbarScroll (plainLocals\<lparr>initialBsPrefix := Some ''navbar-nav-scroll''\<rparr>) \<noteq> Some True \<and>
   ownClass insideNavbar (plainLocals\<lparr>initialBsPrefix := Some ''navbar-nav-scroll''\<rparr>)
     \<notin> set (derivedClasses insideNavbar
               (plainLocals\<lparr>initialBsPrefix := Some ''navbar-nav-scroll''\<rparr>)) \<and>
   navbarNavClass insideNavbar
     \<in> set (derivedClasses insideNavbar
               (plainLocals\<lparr>initialBsPrefix := Some ''navbar-nav-scroll''\<rparr>)) \<and>
   ownClass insideCardHeader
       (plainLocals\<lparr>initialBsPrefix := Some ''card-header-tabs'', variant := Some tabs\<rparr>)
     = cardHeaderClass insideCardHeader
         (plainLocals\<lparr>initialBsPrefix := Some ''card-header-tabs'', variant := Some tabs\<rparr>) \<and>
   nonEmpty (cardPrefix insideCardHeader) \<and>
   \<not> isHostedInNavbar insideCardHeader
       (plainLocals\<lparr>initialBsPrefix := Some ''card-header-tabs'', variant := Some tabs\<rparr>) \<and>
   ownClass insideCardHeader
       (plainLocals\<lparr>initialBsPrefix := Some ''card-header-tabs'', variant := Some tabs\<rparr>)
     \<in> set (derivedClasses insideCardHeader
               (plainLocals\<lparr>initialBsPrefix := Some ''card-header-tabs'', variant := Some tabs\<rparr>)) \<and>
   navbarNavClass insideCardHeader
     \<notin> set (derivedClasses insideCardHeader
               (plainLocals\<lparr>initialBsPrefix := Some ''card-header-tabs'', variant := Some tabs\<rparr>))"
proof -
  let ?N = "plainLocals\<lparr>initialBsPrefix := Some ''navbar-nav-scroll''\<rparr>"
  let ?C = "plainLocals\<lparr>initialBsPrefix := Some ''card-header-tabs'', variant := Some tabs\<rparr>"
  have n: "ownClass insideNavbar ?N = ''navbar-nav-scroll''"
      "navbarNavClass insideNavbar = ''navbar-nav''"
      "navbarScrollClass insideNavbar = ''navbar-nav-scroll''"
      "cardHeaderClass insideNavbar ?N = ''undefined-undefined''"
      "isHostedInNavbar insideNavbar ?N"
      "navbarScroll ?N \<noteq> Some True"
    by (simp_all add: ownClass_def navbarNavClass_def navbarScrollClass_def cardHeaderClass_def
        navbarPrefix_def cardPrefix_def insideNavbar_def plainLocals_def explicitOrKind_def
        isHostedInNavbar_def resolveContext_def)
  have c: "ownClass insideCardHeader ?C = ''card-header-tabs''"
      "navbarNavClass insideCardHeader = ''undefined-nav''"
      "navbarScrollClass insideCardHeader = ''undefined-nav-scroll''"
      "cardHeaderClass insideCardHeader ?C = ''card-header-tabs''"
      "\<not> isHostedInNavbar insideCardHeader ?C"
      "nonEmpty (cardPrefix insideCardHeader)"
    by (simp_all add: ownClass_def navbarNavClass_def navbarScrollClass_def cardHeaderClass_def
        navbarPrefix_def cardPrefix_def insideCardHeader_def plainLocals_def explicitOrKind_def
        isHostedInNavbar_def resolveContext_def)
  have "ownClass insideNavbar ?N \<notin> set (derivedClasses insideNavbar ?N) \<and>
        navbarNavClass insideNavbar \<in> set (derivedClasses insideNavbar ?N)"
    using base_class [of insideNavbar ?N] n by simp
  moreover have "ownClass insideCardHeader ?C \<in> set (derivedClasses insideCardHeader ?C) \<and>
        navbarNavClass insideCardHeader \<notin> set (derivedClasses insideCardHeader ?C)"
    using base_class [of insideCardHeader ?C] c by simp
  ultimately show ?thesis
    using n c by simp
qed

section \<open>The card-header class\<close>

text \<open>
  C1. With a card-header prefix and no variant the class should be suppressed. The literal
  guards the key \<open>{cardHeaderPrefix}-{variant}\<close> by the prefix alone (the next key,
  \<open>{ownPrefix}-{variant}\<close>, is guarded by the variant): a list inside a card header with no
  props gets the class \<open>card-header-undefined\<close>.
\<close>

theorem card_header_undefined:
  "map_option (\<lambda>(st, bag). bag ''className'') (Nav insideCardHeader (JNode 0) None Map.empty)
     = Some (Some (JStr ''nav card-header-undefined''))"
  by code_simp

section \<open>Context precedence\<close>

text \<open>
  C3, as stated, fails in its first part: with both contexts present and the prop
  \<open>navbar = false\<close>, \<open>isHostedInNavbar\<close> is false.
\<close>

theorem navbar_dominates_counterexample:
  "navbarContext insideBoth \<noteq> None \<and> cardContext insideBoth \<noteq> None \<and>
   map_option (isHostedInNavbar insideBoth) (destructure [''navbar'' \<mapsto> JBool False])
     = Some False"
  by code_simp

text \<open>
  C3, amended. When the navbar context is present, \<open>isHostedInNavbar\<close> is the \<open>navbar\<close>
  prop if that is supplied and true otherwise, and the card-header context is not
  consulted: the card-header prefix stays unset, and the derived classes and the rendered
  attribute bag are the same for every card-header context.
\<close>

theorem navbar_dominates:
  assumes "navbarContext amb = Some n"
  shows "isHostedInNavbar amb L = (case navbar L of None \<Rightarrow> True | Some b \<Rightarrow> b) \<and>
         cardPrefix amb = None \<and>
         derivedClasses (amb\<lparr>cardContext := c\<rparr>) L = derivedClasses amb L \<and>
         render (amb\<lparr>cardContext := c\<rparr>) ref L = render amb ref L"
  using assms
  by (simp add: isHostedInNavbar_def resolveContext_def derivedClasses_def navClassObject_def
      render_def cardPrefix_def)

theorem navbar_dominates_witness:
  "navbarContext insideBoth = Some \<lparr>bsPrefix = ''navbar''\<rparr> \<and>
   isHostedInNavbar insideBoth plainLocals \<and>
   derivedClasses (insideBoth\<lparr>cardContext := None\<rparr>) plainLocals
     = derivedClasses insideBoth plainLocals \<and>
   derivedClasses insideBoth plainLocals = [''navbar-nav'']"
proof -
  have h: "navbarContext insideBoth = Some \<lparr>bsPrefix = ''navbar''\<rparr>"
    by (simp add: insideBoth_def)
  have "derivedClasses insideBoth plainLocals = [''navbar-nav'']"
    by (simp add: insideBoth_def plainLocals_def class_defs)
  then show ?thesis
    using navbar_dominates [OF h, of plainLocals None] h by (simp add: plainLocals_def)
qed

section \<open>The validator of \<open>justify\<close>\<close>

text \<open>
  C2, as stated, fails where navbar hosting is inferred from the context: the validator
  sees the props and never the context. Inside a navbar, \<open>justify = true\<close> with no
  \<open>navbar\<close> prop is navbar-hosted and the validator reports nothing.
\<close>

theorem justify_counterexample:
  "map_option (isHostedInNavbar insideNavbar) (destructure [''justify'' \<mapsto> JBool True])
     = Some True \<and>
   propTypes_justify [''justify'' \<mapsto> JBool True] = None"
  by code_simp

text \<open>
  C2, amended. For props with \<open>justify = true\<close>, the validator of \<open>justify\<close> returns the
  error \<open>justify navbar `Nav`s are not supported\<close> when the \<open>navbar\<close> prop is truthy and
  nothing otherwise; the result is a function of the props alone.
\<close>

theorem justify_validator:
  assumes "get p ''justify'' = JBool True"
  shows "propTypes_justify p =
     (if truthy (get p ''navbar'')
      then Some (Error ''justify navbar `Nav`s are not supported'')
      else None)"
  using assms
  by (simp add: propTypes_justify_def all_of_def PropTypes_bool_def justifyNavbar_def)

theorem justify_validator_witness:
  "get [''justify'' \<mapsto> JBool True, ''navbar'' \<mapsto> JBool True] ''justify'' = JBool True \<and>
   propTypes_justify [''justify'' \<mapsto> JBool True, ''navbar'' \<mapsto> JBool True]
     = Some (Error ''justify navbar `Nav`s are not supported'')"
proof -
  have h: "get [''justify'' \<mapsto> JBool True, ''navbar'' \<mapsto> JBool True] ''justify'' = JBool True"
    by (simp add: get_def)
  have t: "truthy (get [''justify'' \<mapsto> JBool True, ''navbar'' \<mapsto> JBool True] ''navbar'')"
    by (simp add: get_def)
  show ?thesis
    using justify_validator [OF h] h t by simp
qed

section \<open>Forwarded props\<close>

lemma Nav_SomeD:
  assumes "Nav amb ref st p = Some (st', bag)"
  obtains L where "destructure (snd (useUncontrolled st p)) = Some L"
    and "bag = render amb ref L"
    and "props L = omit (snd (useUncontrolled st p)) destructured"
    and "activeKey L = get (snd (useUncontrolled st p)) ''activeKey''"
    and "asOptString (get (snd (useUncontrolled st p)) ''className'') = Some (className L)"
proof -
  obtain L where L: "destructure (snd (useUncontrolled st p)) = Some L"
    and bag: "bag = render amb ref L"
    using assms by (auto simp: Nav_def split: prod.splits)
  have "props L = omit (snd (useUncontrolled st p)) destructured"
    and "activeKey L = get (snd (useUncontrolled st p)) ''activeKey''"
    and "asOptString (get (snd (useUncontrolled st p)) ''className'') = Some (className L)"
    using L by (auto simp: destructure_def split: Option.bind_splits)
  with L bag that show thesis by blast
qed

lemma useUncontrolled_other:
  "k \<noteq> ''activeKey'' \<Longrightarrow> k \<noteq> ''defaultActiveKey'' \<Longrightarrow> k \<noteq> ''onSelect'' \<Longrightarrow>
   snd (useUncontrolled st p) k = p k"
  by (simp add: useUncontrolled_def omit_def)

text \<open>
  C7. Every incoming prop that is none of \<open>as\<close>, \<open>bsPrefix\<close>, \<open>variant\<close>, \<open>fill\<close>,
  \<open>justify\<close>, \<open>navbar\<close>, \<open>navbarScroll\<close>, \<open>className\<close>, \<open>children\<close>, \<open>activeKey\<close>,
  \<open>defaultActiveKey\<close>, \<open>onSelect\<close> is in the attribute bag of the \<open>AbstractNav\<close> element
  under the same name with the same value.
\<close>

theorem pass_through:
  assumes "Nav amb ref st p = Some (st', bag)"
    and "k \<notin> {''as'', ''bsPrefix'', ''variant'', ''fill'', ''justify'', ''navbar'',
               ''navbarScroll'', ''className'', ''children'', ''activeKey'',
               ''defaultActiveKey'', ''onSelect''}"
    and "p k = Some v"
  shows "bag k = Some v"
proof -
  obtain L where bag: "bag = render amb ref L"
    and rest: "props L = omit (snd (useUncontrolled st p)) destructured"
    using assms(1) by (rule Nav_SomeD)
  have "snd (useUncontrolled st p) k = Some v"
    using assms(2,3) by (simp add: useUncontrolled_other)
  then have "props L k = Some v"
    using assms(2) by (simp add: rest omit_def destructured_def)
  then show ?thesis
    using assms(2) by (simp add: bag render_def map_add_def)
qed

theorem pass_through_witness:
  "Nav freestanding (JNode 0) None [''role'' \<mapsto> JStr ''tablist'', ''variant'' \<mapsto> JStr ''tabs''] \<noteq> None \<and>
   [''role'' \<mapsto> JStr ''tablist'', ''variant'' \<mapsto> JStr ''tabs''] ''role'' = Some (JStr ''tablist'') \<and>
   snd (the (Nav freestanding (JNode 0) None
              [''role'' \<mapsto> JStr ''tablist'', ''variant'' \<mapsto> JStr ''tabs''])) ''role''
     = Some (JStr ''tablist'')"
proof -
  let ?p = "[''role'' \<mapsto> JStr ''tablist'', ''variant'' \<mapsto> JStr ''tabs'']"
  let ?r = "Nav freestanding (JNode 0) None ?p"
  have ne: "?r \<noteq> None"
    by (simp add: Nav_def useUncontrolled_def isControlled_def destructure_def get_def omit_def
        split: prod.splits)
  then have some: "?r = Some (fst (the ?r), snd (the ?r))"
    by auto
  have k: "''role'' \<notin> {''as'', ''bsPrefix'', ''variant'', ''fill'', ''justify'', ''navbar'',
               ''navbarScroll'', ''className'', ''children'', ''activeKey'',
               ''defaultActiveKey'', ''onSelect''}"
    by simp
  have v: "?p ''role'' = Some (JStr ''tablist'')"
    by simp
  show ?thesis
    using pass_through [OF some k v] ne v by simp
qed

section \<open>The active key\<close>

text \<open>
  C8. In controlled mode (an \<open>activeKey\<close> is supplied) the \<open>activeKey\<close> attribute handed to
  \<open>AbstractNav\<close> is the supplied value, whatever state the hook holds.
\<close>

theorem controlled_fidelity:
  assumes "Nav amb ref st p = Some (st', bag)"
    and "get p ''activeKey'' \<noteq> JUndefined"
  shows "bag ''activeKey'' = Some (get p ''activeKey'')"
proof -
  obtain L where bag: "bag = render amb ref L"
    and rest: "props L = omit (snd (useUncontrolled st p)) destructured"
    and key: "activeKey L = get (snd (useUncontrolled st p)) ''activeKey''"
    using assms(1) by (rule Nav_SomeD)
  have "get (snd (useUncontrolled st p)) ''activeKey'' = get p ''activeKey''"
    using assms(2) by (simp add: useUncontrolled_def isControlled_def get_def)
  then show ?thesis
    by (simp add: bag render_def rest key map_add_def omit_def destructured_def)
qed

theorem controlled_fidelity_witness:
  "Nav freestanding (JNode 0) (Some (JStr ''old'')) [''activeKey'' \<mapsto> JStr ''home''] \<noteq> None \<and>
   get [''activeKey'' \<mapsto> JStr ''home''] ''activeKey'' \<noteq> JUndefined \<and>
   snd (the (Nav freestanding (JNode 0) (Some (JStr ''old'')) [''activeKey'' \<mapsto> JStr ''home'']))
     ''activeKey'' = Some (JStr ''home'')"
proof -
  let ?p = "[''activeKey'' \<mapsto> JStr ''home'']"
  let ?r = "Nav freestanding (JNode 0) (Some (JStr ''old'')) ?p"
  have ne: "?r \<noteq> None"
    by (simp add: Nav_def useUncontrolled_def isControlled_def destructure_def get_def omit_def
        split: prod.splits)
  then have some: "?r = Some (fst (the ?r), snd (the ?r))"
    by auto
  have k: "get ?p ''activeKey'' \<noteq> JUndefined" and v: "get ?p ''activeKey'' = JStr ''home''"
    by (simp_all add: get_def)
  show ?thesis
    using controlled_fidelity [OF some k] ne k v by simp
qed

lemma selectEvents_uncontrolled:
  assumes "\<not> isControlled p"
  shows "selectEvents st p keys =
     ((if keys = [] then st else Some (last keys)),
      (if truthy (get p ''onSelect'') then map (\<lambda>key. (get p ''onSelect'', key)) keys else []))"
  using assms by (induction keys arbitrary: st) (simp_all add: selectEvent_def)

lemma last_take_Suc: "n < length xs \<Longrightarrow> last (take (Suc n) xs) = xs ! n"
  by (simp add: take_Suc_conv_app_nth)

text \<open>
  C9. In uncontrolled mode (no \<open>activeKey\<close> supplied) the first render stores
  \<open>defaultActiveKey\<close> (\<open>undefined\<close> when it is not supplied) and uses it as the active key;
  after the selection events \<open>keys\<close>, the stored value after event \<open>n\<close> is the key of
  event \<open>n\<close>, the next render uses that key, and the caller's notifier, if one was
  supplied, has been called once per event with the same keys in order.
\<close>

theorem uncontrolled_echo:
  assumes "\<not> isControlled p" and "n < length keys"
  shows "fst (useUncontrolled None p) = Some (get p ''defaultActiveKey'') \<and>
         snd (useUncontrolled None p) ''activeKey'' = Some (get p ''defaultActiveKey'') \<and>
         fst (selectEvents st p (take (Suc n) keys)) = Some (keys ! n) \<and>
         snd (useUncontrolled (fst (selectEvents st p (take (Suc n) keys))) p) ''activeKey''
           = Some (keys ! n) \<and>
         snd (selectEvents st p keys) =
           (if truthy (get p ''onSelect'')
            then map (\<lambda>key. (get p ''onSelect'', key)) keys else [])"
proof -
  have ne: "keys \<noteq> []"
    using assms(2) by auto
  have init: "useUncontrolled None p =
      (Some (get p ''defaultActiveKey''),
       (omit p [''defaultActiveKey'', ''activeKey''])
         (''activeKey'' \<mapsto> get p ''defaultActiveKey'',
          ''onSelect'' \<mapsto> JHandler (get p ''onSelect'')))"
    using assms(1) by (simp add: useUncontrolled_def heldValue_def)
  have stored: "fst (selectEvents st p (take (Suc n) keys)) = Some (keys ! n)"
    using assms ne by (simp add: selectEvents_uncontrolled last_take_Suc)
  have next_render: "snd (useUncontrolled (Some (keys ! n)) p) ''activeKey'' = Some (keys ! n)"
    using assms(1) by (simp add: useUncontrolled_def heldValue_def)
  have calls: "snd (selectEvents st p keys) =
      (if truthy (get p ''onSelect'')
       then map (\<lambda>key. (get p ''onSelect'', key)) keys else [])"
    using assms(1) by (simp add: selectEvents_uncontrolled)
  show ?thesis
    by (simp only: init stored next_render calls fst_conv snd_conv fun_upd_apply)
       simp
qed

theorem uncontrolled_echo_witness:
  "\<not> isControlled [''defaultActiveKey'' \<mapsto> JStr ''a'', ''onSelect'' \<mapsto> JFun 7] \<and>
   (0::nat) < length [JStr ''b''] \<and>
   fst (useUncontrolled None [''defaultActiveKey'' \<mapsto> JStr ''a'', ''onSelect'' \<mapsto> JFun 7])
     = Some (JStr ''a'') \<and>
   selectEvents (Some (JStr ''a''))
       [''defaultActiveKey'' \<mapsto> JStr ''a'', ''onSelect'' \<mapsto> JFun 7] [JStr ''b'']
     = (Some (JStr ''b''), [(JFun 7, JStr ''b'')])"
proof -
  let ?p = "[''defaultActiveKey'' \<mapsto> JStr ''a'', ''onSelect'' \<mapsto> JFun 7]"
  have h: "\<not> isControlled ?p" and n: "(0::nat) < length [JStr ''b'']"
    by (simp_all add: isControlled_def get_def)
  have g: "get ?p ''defaultActiveKey'' = JStr ''a''" "get ?p ''onSelect'' = JFun 7"
    by (simp_all add: get_def)
  show ?thesis
    using uncontrolled_echo [OF h n, of "Some (JStr ''a'')"] h g
    by (simp add: prod_eq_iff)
qed

section \<open>The caller's class name\<close>

lemma joinSpace_Cons: "joinSpace (c # cs) = c @ (if cs = [] then [] else '' '' @ joinSpace cs)"
  by (cases cs) simp_all

text \<open>
  C10. A caller-supplied \<open>className\<close> string is the start of the composed class string,
  and the structurally derived classes follow it, joined by single spaces.
\<close>

theorem className_kept:
  assumes "Nav amb ref st p = Some (st', bag)"
    and "get p ''className'' = JStr c"
  shows "\<exists>L. destructure (snd (useUncontrolled st p)) = Some L \<and>
             bag ''className'' =
               Some (JStr (c @ (if c = [] \<or> derivedClasses amb L = [] then [] else '' '')
                             @ joinSpace (derivedClasses amb L)))"
proof -
  obtain L where L: "destructure (snd (useUncontrolled st p)) = Some L"
    and bag: "bag = render amb ref L"
    and rest: "props L = omit (snd (useUncontrolled st p)) destructured"
    and cn: "asOptString (get (snd (useUncontrolled st p)) ''className'') = Some (className L)"
    using assms(1) by (rule Nav_SomeD)
  have "get (snd (useUncontrolled st p)) ''className'' = get p ''className''"
    by (simp add: get_def useUncontrolled_other)
  then have cl: "className L = Some c"
    using cn assms(2) by simp
  have "bag ''className'' = Some (JStr (classNames (className L) (navClassObject amb L)))"
    by (simp add: bag render_def rest map_add_def omit_def destructured_def)
  also have "classNames (className L) (navClassObject amb L) =
      c @ (if c = [] \<or> derivedClasses amb L = [] then [] else '' '')
        @ joinSpace (derivedClasses amb L)"
    by (simp add: classNames_def cl derivedClasses_def joinSpace_Cons)
  finally show ?thesis
    using L by simp
qed

theorem className_kept_witness:
  "Nav freestanding (JNode 0) None [''className'' \<mapsto> JStr ''mine'', ''variant'' \<mapsto> JStr ''tabs''] \<noteq> None \<and>
   get [''className'' \<mapsto> JStr ''mine'', ''variant'' \<mapsto> JStr ''tabs''] ''className'' = JStr ''mine'' \<and>
   snd (the (Nav freestanding (JNode 0) None
              [''className'' \<mapsto> JStr ''mine'', ''variant'' \<mapsto> JStr ''tabs''])) ''className''
     = Some (JStr ''mine nav nav-tabs'')"
proof -
  let ?p = "[''className'' \<mapsto> JStr ''mine'', ''variant'' \<mapsto> JStr ''tabs'']"
  let ?r = "Nav freestanding (JNode 0) None ?p"
  have ne: "?r \<noteq> None"
    by (simp add: Nav_def useUncontrolled_def isControlled_def destructure_def get_def omit_def
        split: prod.splits)
  then have some: "?r = Some (fst (the ?r), snd (the ?r))"
    by auto
  have c: "get ?p ''className'' = JStr ''mine''"
    by (simp add: get_def)
  obtain L where L: "destructure (snd (useUncontrolled None ?p)) = Some L"
    and cls: "snd (the ?r) ''className'' =
       Some (JStr (''mine'' @ (if ''mine'' = [] \<or> derivedClasses freestanding L = [] then [] else '' '')
                     @ joinSpace (derivedClasses freestanding L)))"
    using className_kept [OF some c] by blast
  have "variant L = Some tabs \<and> initialBsPrefix L = None \<and> fill L = None \<and> justify L = None
      \<and> navbar L = None \<and> navbarScroll L = None"
    using L by (auto simp: destructure_def useUncontrolled_def isControlled_def get_def omit_def
        split: Option.bind_splits)
  then have "derivedClasses freestanding L = [''nav'', ''nav-tabs'']"
    by (simp add: freestanding_def class_defs)
  then show ?thesis
    using ne c cls by simp
qed

end
